theory Spec2Isabelle
  imports Complex_Main
begin

section \<open>Numbers and shared types\<close>

text \<open>
  The source is TypeScript. Its \<open>number\<close> values are modelled exactly: clock readings,
  durations in milliseconds, counters and capacities (\<open>maxRequests\<close>, \<open>bucketSize\<close>,
  \<open>queueSize\<close>) are integers; rates, the refill interval and the token count are reals
  (the distributed backend reads the token count back with \<open>parseFloat\<close>). Rounding of
  IEEE doubles is not modelled. Every function of the backend that reads \<open>Date.now()\<close>
  takes the reading as an argument. The fixed-window, sliding-window-log and
  sliding-window-counter checks read the clock at several places, with an \<open>await\<close>
  between them: they take a \<open>clock\<close>, the reading at each place in program order. The
  token-bucket and leaking-bucket checks read the clock once themselves; their models
  pass that reading to the two backend calls as well.
\<close>

type_synonym clock = "nat \<Rightarrow> int"

text \<open>JavaScript's \<open>a || b\<close> on an optional number: \<open>undefined\<close> and \<open>0\<close> are falsy.\<close>

definition js_or :: "'a::zero option \<Rightarrow> 'a \<Rightarrow> 'a" where
  "js_or x d = (case x of None \<Rightarrow> d | Some v \<Rightarrow> if v = 0 then d else v)"

text \<open>JavaScript's remainder \<open>a % b\<close>: the result takes the sign of the dividend.\<close>

definition js_rem :: "int \<Rightarrow> int \<Rightarrow> int" where
  "js_rem a b = sgn a * (\<bar>a\<bar> mod \<bar>b\<bar>)"

datatype RateLimitAlgorithm =
  TOKEN_BUCKET | LEAKING_BUCKET | FIXED_WINDOW | SLIDING_WINDOW_LOG | SLIDING_WINDOW_COUNTER

record RateLimitResult =
  allowed :: bool
  remaining :: real
  resetTime :: int
  limit :: int
  retryAfter :: "int option"
  currentCount :: real

record RateLimitConfig =
  windowMs :: int
  maxRequests :: int
  algorithm :: RateLimitAlgorithm
  message :: "string option"
  statusCode :: "int option"
  headers :: "bool option"
  bucketSize :: "int option"
  refillRate :: "real option"
  refillInterval :: "real option"
  queueSize :: "int option"
  processingRate :: "real option"

record TokenBucketState =
  tokens :: real
  lastRefillTime :: int

record LeakingBucketState =
  queue :: "int list"
  lastLeakTime :: int

section \<open>The in-process backend (storage/memory-store.ts)\<close>

record 'a StoredValue =
  stored :: 'a
  expiresAt :: int

record MemoryStore =
  counters :: "string \<rightharpoonup> int StoredValue"
  timestamps :: "string \<rightharpoonup> int list StoredValue"
  bucketStates :: "string \<rightharpoonup> TokenBucketState StoredValue"
  queueStates :: "string \<rightharpoonup> LeakingBucketState StoredValue"

text \<open>\<open>new MemoryStore()\<close>: four empty maps.\<close>

definition newMemoryStore :: MemoryStore where
  "newMemoryStore =
     \<lparr>counters = Map.empty, timestamps = Map.empty,
      bucketStates = Map.empty, queueStates = Map.empty\<rparr>"

definition isExpired :: "'a StoredValue \<Rightarrow> int \<Rightarrow> bool" where
  "isExpired sv now = (expiresAt sv \<le> now)"

text \<open>\<open>!stored || this.isExpired(stored)\<close>: the entry, when present and not expired.\<close>

definition live :: "'a StoredValue option \<Rightarrow> int \<Rightarrow> 'a StoredValue option" where
  "live e now = (case e of None \<Rightarrow> None
                 | Some sv \<Rightarrow> if isExpired sv now then None else Some sv)"

definition increment :: "MemoryStore \<Rightarrow> string \<Rightarrow> int \<Rightarrow> int \<Rightarrow> int \<times> MemoryStore" where
  "increment s key wMs now =
     (case live (counters s key) now of
        None \<Rightarrow> (1, s\<lparr>counters := (counters s)(key \<mapsto> \<lparr>stored = 1, expiresAt = now + wMs\<rparr>)\<rparr>)
      | Some sv \<Rightarrow>
          (stored sv + 1,
           s\<lparr>counters := (counters s)(key \<mapsto> sv\<lparr>stored := stored sv + 1\<rparr>)\<rparr>))"

definition get_counter :: "MemoryStore \<Rightarrow> string \<Rightarrow> int \<Rightarrow> int option" where
  "get_counter s key now = map_option stored (live (counters s key) now)"

text \<open>
  \<open>addTimestamp\<close> reads the clock into \<open>now\<close> and again inside \<open>isExpired\<close>; the second
  reading is \<open>nowExpired\<close>.
\<close>

definition addTimestamp ::
  "MemoryStore \<Rightarrow> string \<Rightarrow> int \<Rightarrow> int \<Rightarrow> int \<Rightarrow> int \<Rightarrow> MemoryStore" where
  "addTimestamp s key ts wMs now nowExpired =
     (case live (timestamps s key) nowExpired of
        None \<Rightarrow> s\<lparr>timestamps := (timestamps s)(key \<mapsto> \<lparr>stored = [ts], expiresAt = now + wMs\<rparr>)\<rparr>
      | Some sv \<Rightarrow>
          s\<lparr>timestamps := (timestamps s)(key \<mapsto> \<lparr>stored = stored sv @ [ts], expiresAt = now + wMs\<rparr>)\<rparr>)"

definition getTimestamps :: "MemoryStore \<Rightarrow> string \<Rightarrow> int \<Rightarrow> int \<Rightarrow> int list" where
  "getTimestamps s key minTimestamp now =
     (case live (timestamps s key) now of
        None \<Rightarrow> []
      | Some sv \<Rightarrow> filter (\<lambda>ts. minTimestamp \<le> ts) (stored sv))"

definition removeOldTimestamps :: "MemoryStore \<Rightarrow> string \<Rightarrow> int \<Rightarrow> int \<Rightarrow> MemoryStore" where
  "removeOldTimestamps s key minTimestamp now =
     (case live (timestamps s key) now of
        None \<Rightarrow> s
      | Some sv \<Rightarrow>
          s\<lparr>timestamps := (timestamps s)(key \<mapsto>
               sv\<lparr>stored := filter (\<lambda>ts. minTimestamp \<le> ts) (stored sv)\<rparr>)\<rparr>)"

definition getBucketState :: "MemoryStore \<Rightarrow> string \<Rightarrow> int \<Rightarrow> TokenBucketState option" where
  "getBucketState s key now = map_option stored (live (bucketStates s key) now)"

definition setBucketState ::
  "MemoryStore \<Rightarrow> string \<Rightarrow> TokenBucketState \<Rightarrow> int \<Rightarrow> int \<Rightarrow> MemoryStore" where
  "setBucketState s key st ttlMs now =
     s\<lparr>bucketStates := (bucketStates s)(key \<mapsto> \<lparr>stored = st, expiresAt = now + ttlMs\<rparr>)\<rparr>"

definition getQueue :: "MemoryStore \<Rightarrow> string \<Rightarrow> int \<Rightarrow> LeakingBucketState option" where
  "getQueue s key now = map_option stored (live (queueStates s key) now)"

definition setQueue ::
  "MemoryStore \<Rightarrow> string \<Rightarrow> LeakingBucketState \<Rightarrow> int \<Rightarrow> int \<Rightarrow> MemoryStore" where
  "setQueue s key st ttlMs now =
     s\<lparr>queueStates := (queueStates s)(key \<mapsto> \<lparr>stored = st, expiresAt = now + ttlMs\<rparr>)\<rparr>"

section \<open>The five algorithms (algorithms/*.ts)\<close>

text \<open>
  The template literal \<open>`${baseKey}:${windowStart}`\<close> renders the window start as a
  decimal numeral; \<open>number_toString\<close> models \<open>Number.prototype.toString\<close> on integers.
\<close>

definition digit_char :: "nat \<Rightarrow> char" where
  "digit_char d = ''0123456789'' ! d"

fun decimal_digits :: "nat \<Rightarrow> string \<Rightarrow> string" where
  "decimal_digits n acc =
     (if n < 10 then digit_char n # acc
      else decimal_digits (n div 10) (digit_char (n mod 10) # acc))"

definition number_toString :: "int \<Rightarrow> string" where
  "number_toString i =
     (if 0 \<le> i then decimal_digits (nat i) [] else CHR ''-'' # decimal_digits (nat \<bar>i\<bar>) [])"

definition windowKey :: "string \<Rightarrow> int \<Rightarrow> string" where
  "windowKey baseKey windowStart = baseKey @ '':'' @ number_toString windowStart"

subsection \<open>Token bucket\<close>

definition TokenBucket_checkLimit ::
  "RateLimitConfig \<Rightarrow> MemoryStore \<Rightarrow> string \<Rightarrow> int \<Rightarrow> RateLimitResult \<times> MemoryStore" where
  "TokenBucket_checkLimit cfg s key now =
     (let bSize = js_or (bucketSize cfg) (maxRequests cfg);
          rRate = js_or (refillRate cfg) 1;
          rInterval = js_or (refillInterval cfg)
                        (real_of_int (windowMs cfg) / real_of_int (maxRequests cfg));
          state0 = (case getBucketState s key now of
                      None \<Rightarrow> \<lparr>tokens = real_of_int bSize, lastRefillTime = now\<rparr>
                    | Some st \<Rightarrow> st);
          timePassed = now - lastRefillTime state0;
          tokensToAdd = real_of_int \<lfloor>real_of_int timePassed / rInterval\<rfloor> * rRate;
          state1 = state0\<lparr>tokens := min (real_of_int bSize) (tokens state0 + tokensToAdd)\<rparr>;
          state2 = (if tokensToAdd > 0 then state1\<lparr>lastRefillTime := now\<rparr> else state1);
          ok = (tokens state2 > 0);
          state3 = (if ok then state2\<lparr>tokens := tokens state2 - 1\<rparr> else state2);
          s' = setBucketState s key state3 (windowMs cfg * 2) now;
          tokensNeeded = real_of_int bSize - tokens state3;
          timeToFullMs = (tokensNeeded / rRate) * rInterval
      in (\<lparr>allowed = ok,
           remaining = max 0 (tokens state3),
           resetTime = \<lceil>(real_of_int now + timeToFullMs) / 1000\<rceil>,
           limit = bSize,
           retryAfter = (if ok then None else Some \<lceil>rInterval / 1000\<rceil>),
           currentCount = real_of_int bSize - tokens state3\<rparr>, s'))"

subsection \<open>Leaking bucket\<close>

definition LeakingBucket_checkLimit ::
  "RateLimitConfig \<Rightarrow> MemoryStore \<Rightarrow> string \<Rightarrow> int \<Rightarrow> RateLimitResult \<times> MemoryStore" where
  "LeakingBucket_checkLimit cfg s key now =
     (let qSize = js_or (queueSize cfg) (maxRequests cfg);
          pRate = js_or (processingRate cfg)
                    (real_of_int (maxRequests cfg) / (real_of_int (windowMs cfg) / 1000));
          state0 = (case getQueue s key now of
                      None \<Rightarrow> \<lparr>queue = [], lastLeakTime = now\<rparr>
                    | Some st \<Rightarrow> st);
          timePassed = now - lastLeakTime state0;
          leakedCount = \<lfloor>(real_of_int timePassed / 1000) * pRate\<rfloor>;
          state1 = (if leakedCount > 0
                    then state0\<lparr>queue := drop (nat leakedCount) (queue state0),
                                lastLeakTime := now\<rparr>
                    else state0);
          currentQueueSize = int (length (queue state1));
          ok = (currentQueueSize < qSize);
          state2 = (if ok then state1\<lparr>queue := queue state1 @ [now]\<rparr> else state1);
          s' = setQueue s key state2 (windowMs cfg * 2) now;
          len = real (length (queue state2));
          blockedNonEmpty = (\<not> ok \<and> length (queue state2) > 0);
          timePerRequest = 1000 / pRate;
          timeToEmpty = (len / pRate) * 1000
      in (\<lparr>allowed = ok,
           remaining = real_of_int qSize - len,
           resetTime = (if blockedNonEmpty
                        then \<lceil>(real_of_int now + timePerRequest) / 1000\<rceil>
                        else \<lceil>(real_of_int now + timeToEmpty) / 1000\<rceil>),
           limit = qSize,
           retryAfter = (if blockedNonEmpty then Some \<lceil>timePerRequest / 1000\<rceil> else None),
           currentCount = len\<rparr>, s'))"

subsection \<open>Fixed window\<close>

definition getWindowKey :: "RateLimitConfig \<Rightarrow> string \<Rightarrow> int \<Rightarrow> string" where
  "getWindowKey cfg baseKey now =
     (let windowStart = now - js_rem now (windowMs cfg) in windowKey baseKey windowStart)"

definition getWindowResetTime :: "RateLimitConfig \<Rightarrow> int \<Rightarrow> int" where
  "getWindowResetTime cfg now =
     (let windowStart = now - js_rem now (windowMs cfg);
          windowEnd = windowStart + windowMs cfg
      in \<lceil>real_of_int windowEnd / 1000\<rceil>)"

text \<open>
  The clock of a fixed-window check: reading 0 in \<open>getWindowKey\<close>, 1 in the backend's
  \<open>increment\<close>, 2 in \<open>getWindowResetTime\<close>, 3 in the \<open>retryAfter\<close> block.
\<close>

definition FixedWindow_checkLimit ::
  "RateLimitConfig \<Rightarrow> MemoryStore \<Rightarrow> string \<Rightarrow> clock \<Rightarrow> RateLimitResult \<times> MemoryStore" where
  "FixedWindow_checkLimit cfg s key clk =
     (let wKey = getWindowKey cfg key (clk 0);
          (cnt, s') = increment s wKey (windowMs cfg) (clk 1);
          ok = (cnt \<le> maxRequests cfg);
          rem = max 0 (maxRequests cfg - cnt);
          reset = getWindowResetTime cfg (clk 2)
      in (\<lparr>allowed = ok,
           remaining = real_of_int rem,
           resetTime = reset,
           limit = maxRequests cfg,
           retryAfter = (if \<not> ok
                         then Some \<lceil>real_of_int (reset * 1000 - clk 3) / 1000\<rceil> else None),
           currentCount = real_of_int cnt\<rparr>, s'))"

subsection \<open>Sliding window log\<close>


definition SlidingWindowLog_checkLimit ::
  "RateLimitConfig \<Rightarrow> MemoryStore \<Rightarrow> string \<Rightarrow> clock \<Rightarrow> RateLimitResult \<times> MemoryStore" where
  "SlidingWindowLog_checkLimit cfg s key clk =
     (let now = clk 0;
          windowStart = now - windowMs cfg;
          s1 = removeOldTimestamps s key windowStart (clk 1);
          ts = getTimestamps s1 key windowStart (clk 2);
          cnt = int (length ts);
          ok = (cnt < maxRequests cfg);
          s2 = (if ok then addTimestamp s1 key now (windowMs cfg) (clk 3) (clk 4) else s1);
          rem = max 0 (maxRequests cfg - cnt - (if ok then 1 else 0));
          blockedNonEmpty = (\<not> ok \<and> length ts > 0);
          whenOldestExpires = min_list ts + windowMs cfg
      in (\<lparr>allowed = ok,
           remaining = real_of_int rem,
           resetTime = (if blockedNonEmpty
                        then \<lceil>real_of_int whenOldestExpires / 1000\<rceil>
                        else \<lceil>real_of_int (now + windowMs cfg) / 1000\<rceil>),
           limit = maxRequests cfg,
           retryAfter = (if blockedNonEmpty
                         then Some (max 1 \<lceil>real_of_int (whenOldestExpires - now) / 1000\<rceil>)
                         else None),
           currentCount = real_of_int (cnt + (if ok then 1 else 0))\<rparr>, s2))"

subsection \<open>Sliding window counter\<close>

definition getOverlapRatio :: "RateLimitConfig \<Rightarrow> int \<Rightarrow> real" where
  "getOverlapRatio cfg now =
     (let positionInWindow = js_rem now (windowMs cfg)
      in 1 - real_of_int positionInWindow / real_of_int (windowMs cfg))"

text \<open>
  The clock of a sliding-window-counter check: reading 0 is \<open>now\<close> of \<open>checkLimit\<close> (not
  used), 1 is read in \<open>getWindowKeys\<close>, 2 and 3 in the two \<open>get\<close> calls, 4 in
  \<open>getOverlapRatio\<close>, 5 in \<open>increment\<close>.
\<close>

definition SlidingWindowCounter_checkLimit ::
  "RateLimitConfig \<Rightarrow> MemoryStore \<Rightarrow> string \<Rightarrow> clock \<Rightarrow> RateLimitResult \<times> MemoryStore" where
  "SlidingWindowCounter_checkLimit cfg s key clk =
     (let windowStart = clk 1 - js_rem (clk 1) (windowMs cfg);
          previousWindowStart = windowStart - windowMs cfg;
          currentKey = windowKey key windowStart;
          previousKey = windowKey key previousWindowStart;
          currentWindowCount = js_or (get_counter s currentKey (clk 2)) 0;
          previousWindowCount = js_or (get_counter s previousKey (clk 3)) 0;
          overlapRatio = getOverlapRatio cfg (clk 4);
          estimatedCount = real_of_int currentWindowCount
                             + real_of_int previousWindowCount * overlapRatio;
          ok = (\<lfloor>estimatedCount\<rfloor> < maxRequests cfg);
          s' = (if ok then snd (increment s currentKey (windowMs cfg) (clk 5)) else s);
          rem = max 0 (maxRequests cfg - \<lfloor>estimatedCount\<rfloor> - (if ok then 1 else 0));
          windowEnd = windowStart + windowMs cfg;
          requestsOverLimit = \<lfloor>estimatedCount\<rfloor> - maxRequests cfg + 1;
          timePerRequest = real_of_int (windowMs cfg) / real_of_int (maxRequests cfg)
      in (\<lparr>allowed = ok,
           remaining = real_of_int rem,
           resetTime = \<lceil>real_of_int windowEnd / 1000\<rceil>,
           limit = maxRequests cfg,
           retryAfter = (if \<not> ok
                         then Some (max 1 \<lceil>(real_of_int requestsOverLimit * timePerRequest) / 1000\<rceil>)
                         else None),
           currentCount = real_of_int (\<lfloor>estimatedCount\<rfloor> + (if ok then 1 else 0))\<rparr>, s'))"

section \<open>The middleware and its statistics (middleware/rate-limiter.ts)\<close>

text \<open>
  \<open>createRateLimiter\<close> selects the algorithm class; \<open>checkLimit\<close> of the instance it
  returns is the selected function. The in-process backend never throws. The
  token-bucket and leaking-bucket models take the first reading of the clock.
\<close>

datatype error = BackendError

definition createRateLimiter ::
  "RateLimitConfig \<Rightarrow> MemoryStore \<Rightarrow> string \<Rightarrow> clock \<Rightarrow> RateLimitResult \<times> MemoryStore" where
  "createRateLimiter cfg s key clk =
     (case algorithm cfg of
        TOKEN_BUCKET \<Rightarrow> TokenBucket_checkLimit cfg s key (clk 0)
      | LEAKING_BUCKET \<Rightarrow> LeakingBucket_checkLimit cfg s key (clk 0)
      | FIXED_WINDOW \<Rightarrow> FixedWindow_checkLimit cfg s key clk
      | SLIDING_WINDOW_LOG \<Rightarrow> SlidingWindowLog_checkLimit cfg s key clk
      | SLIDING_WINDOW_COUNTER \<Rightarrow> SlidingWindowCounter_checkLimit cfg s key clk)"

record AlgorithmStats =
  total :: nat
  allowedCount :: nat
  blockedCount :: nat

record RateLimiterStats =
  totalRequests :: nat
  allowedRequests :: nat
  blockedRequests :: nat
  uniqueKeys :: nat
  requestsByAlgorithm :: "RateLimitAlgorithm \<Rightarrow> AlgorithmStats"

text \<open>
  The module state: the \<open>stats\<close> object, the \<open>uniqueKeys\<close> set, and the backend the
  middleware was created with.
\<close>

record 'st ModuleState =
  stats :: RateLimiterStats
  uniqueKeySet :: "string set"
  backend :: 'st

definition zeroAlgorithmStats :: AlgorithmStats where
  "zeroAlgorithmStats = \<lparr>total = 0, allowedCount = 0, blockedCount = 0\<rparr>"

definition initialStats :: RateLimiterStats where
  "initialStats =
     \<lparr>totalRequests = 0, allowedRequests = 0, blockedRequests = 0, uniqueKeys = 0,
      requestsByAlgorithm = (\<lambda>_. zeroAlgorithmStats)\<rparr>"

text \<open>
  The response: headers set so far, and the status and JSON body once sent. The body
  keeps \<open>result.resetTime * 1000\<close>, the argument of \<open>new Date(...)\<close>; its ISO rendering
  is not modelled.
\<close>

record RejectionBody =
  body_error :: string
  body_retryAfter :: "int option"
  body_limit :: int
  body_remaining :: real
  body_resetTimeMs :: int

record Response =
  resHeaders :: "string \<rightharpoonup> real"
  resStatus :: "int option"
  resBody :: "RejectionBody option"

definition emptyResponse :: Response where
  "emptyResponse = \<lparr>resHeaders = Map.empty, resStatus = None, resBody = None\<rparr>"

definition setRateLimitHeaders :: "Response \<Rightarrow> RateLimitResult \<Rightarrow> Response" where
  "setRateLimitHeaders res result =
     (let h1 = (resHeaders res)(''X-RateLimit-Limit'' \<mapsto> real_of_int (limit result));
          h2 = h1(''X-RateLimit-Remaining'' \<mapsto> remaining result);
          h3 = h2(''X-RateLimit-Reset'' \<mapsto> real_of_int (resetTime result));
          h4 = (case retryAfter result of
                  None \<Rightarrow> h3
                | Some ra \<Rightarrow> h3(''Retry-After'' \<mapsto> real_of_int ra))
      in res\<lparr>resHeaders := h4\<rparr>)"

definition bumpTotal :: "AlgorithmStats \<Rightarrow> AlgorithmStats" where
  "bumpTotal a = a\<lparr>total := total a + 1\<rparr>"

definition bumpAllowed :: "AlgorithmStats \<Rightarrow> AlgorithmStats" where
  "bumpAllowed a = a\<lparr>allowedCount := allowedCount a + 1\<rparr>"

definition bumpBlocked :: "AlgorithmStats \<Rightarrow> AlgorithmStats" where
  "bumpBlocked a = a\<lparr>blockedCount := blockedCount a + 1\<rparr>"

text \<open>Step 4 of the middleware: the statistics update after a check that returned.\<close>

definition updateStats ::
  "RateLimitConfig \<Rightarrow> nat \<Rightarrow> RateLimitResult \<Rightarrow> RateLimiterStats \<Rightarrow> RateLimiterStats" where
  "updateStats cfg nKeys result st =
     (let alg = algorithm cfg;
          st1 = st\<lparr>totalRequests := totalRequests st + 1\<rparr>;
          st2 = st1\<lparr>uniqueKeys := nKeys\<rparr>;
          st3 = st2\<lparr>requestsByAlgorithm :=
                  (requestsByAlgorithm st2)(alg := bumpTotal (requestsByAlgorithm st2 alg))\<rparr>
      in if allowed result
         then st3\<lparr>allowedRequests := allowedRequests st3 + 1,
                  requestsByAlgorithm :=
                    (requestsByAlgorithm st3)(alg := bumpAllowed (requestsByAlgorithm st3 alg))\<rparr>
         else st3\<lparr>blockedRequests := blockedRequests st3 + 1,
                  requestsByAlgorithm :=
                    (requestsByAlgorithm st3)(alg := bumpBlocked (requestsByAlgorithm st3 alg))\<rparr>)"

text \<open>
  The function returned by \<open>createRateLimiterMiddleware\<close>. \<open>checkLimit\<close> is the limiter
  over its backend; it returns \<open>Inl\<close> when it throws. \<open>clk\<close> stands for the clock the
  check reads. The result is the module state, the response, and whether \<open>next()\<close> was
  called.
\<close>

definition rateLimiterMiddleware ::
  "('st \<Rightarrow> string \<Rightarrow> 'clk \<Rightarrow> (error + RateLimitResult) \<times> 'st) \<Rightarrow> RateLimitConfig \<Rightarrow>
   ('req \<Rightarrow> string) \<Rightarrow> 'req \<Rightarrow> 'clk \<Rightarrow> 'st ModuleState \<Rightarrow> Response \<Rightarrow>
   'st ModuleState \<times> Response \<times> bool" where
  "rateLimiterMiddleware checkLimit cfg keyGenerator req now g res =
     (let key = keyGenerator req;
          g1 = g\<lparr>uniqueKeySet := insert key (uniqueKeySet g)\<rparr>;
          (outcome, st') = checkLimit (backend g1) key now;
          g2 = g1\<lparr>backend := st'\<rparr>
      in case outcome of
           Inl err \<Rightarrow> (g2, res, True)
         | Inr result \<Rightarrow>
             (let g3 = g2\<lparr>stats := updateStats cfg (card (uniqueKeySet g2)) result (stats g2)\<rparr>;
                  res1 = (if headers cfg \<noteq> Some False
                          then setRateLimitHeaders res result else res)
              in if \<not> allowed result
                 then (g3,
                       res1\<lparr>resStatus := Some (js_or (statusCode cfg) 429),
                            resBody := Some
                              \<lparr>body_error = (case message cfg of
                                               None \<Rightarrow> ''Too Many Requests''
                                             | Some m \<Rightarrow> if m = [] then ''Too Many Requests'' else m),
                               body_retryAfter = retryAfter result,
                               body_limit = limit result,
                               body_remaining = remaining result,
                               body_resetTimeMs = resetTime result * 1000\<rparr>\<rparr>,
                       False)
                 else (g3, res1, True)))"

text \<open>The limiter over the in-process backend, and one over a backend that always throws.\<close>

definition memoryLimiter ::
  "RateLimitConfig \<Rightarrow> MemoryStore \<Rightarrow> string \<Rightarrow> clock \<Rightarrow> (error + RateLimitResult) \<times> MemoryStore" where
  "memoryLimiter cfg s key clk = (let (r, s') = createRateLimiter cfg s key clk in (Inr r, s'))"

definition throwingLimiter ::
  "'st \<Rightarrow> string \<Rightarrow> int \<Rightarrow> (error + RateLimitResult) \<times> 'st" where
  "throwingLimiter st key now = (Inl BackendError, st)"

definition resetStats :: "'st ModuleState \<Rightarrow> 'st ModuleState" where
  "resetStats g =
     g\<lparr>stats := (stats g)\<lparr>totalRequests := 0, allowedRequests := 0, blockedRequests := 0,
                            uniqueKeys := 0,
                            requestsByAlgorithm := (\<lambda>algo. zeroAlgorithmStats)\<rparr>,
       uniqueKeySet := {}\<rparr>"

definition allAlgorithms :: "RateLimitAlgorithm list" where
  "allAlgorithms =
     [TOKEN_BUCKET, LEAKING_BUCKET, FIXED_WINDOW, SLIDING_WINDOW_LOG, SLIDING_WINDOW_COUNTER]"

text \<open>The accounting invariant of the statistics record.\<close>

definition statsConsistent :: "RateLimiterStats \<Rightarrow> bool" where
  "statsConsistent st =
     (totalRequests st = allowedRequests st + blockedRequests st \<and>
      list_all (\<lambda>a. total (requestsByAlgorithm st a)
                      = allowedCount (requestsByAlgorithm st a)
                        + blockedCount (requestsByAlgorithm st a)) allAlgorithms)"

section \<open>Executions and example configurations\<close>

text \<open>
  A sequence of checks against one backend, in order; each is a key with the clock
  reading, or the clock, of that check.
\<close>

fun run_checks ::
  "(MemoryStore \<Rightarrow> string \<Rightarrow> 'c \<Rightarrow> RateLimitResult \<times> MemoryStore) \<Rightarrow> MemoryStore \<Rightarrow>
   (string \<times> 'c) list \<Rightarrow> RateLimitResult list \<times> MemoryStore" where
  "run_checks chk s [] = ([], s)"
| "run_checks chk s ((k, t) # es) =
     (let (r, s1) = chk s k t;
          (rs, s2) = run_checks chk s1 es
      in (r # rs, s2))"

definition baseConfig :: "int \<Rightarrow> int \<Rightarrow> RateLimitAlgorithm \<Rightarrow> RateLimitConfig" where
  "baseConfig w m a =
     \<lparr>windowMs = w, maxRequests = m, algorithm = a, message = None, statusCode = None,
      headers = Some True, bucketSize = None, refillRate = None, refillInterval = None,
      queueSize = None, processingRate = None\<rparr>"

text \<open>Example configurations and the backends reached by short executions.\<close>

definition queueExampleConfig :: RateLimitConfig where
  "queueExampleConfig =
     (baseConfig 10000 10 LEAKING_BUCKET)\<lparr>queueSize := Some 2, processingRate := Some 1\<rparr>"


definition fractionalRateConfig :: RateLimitConfig where
  "fractionalRateConfig =
     (baseConfig 10000 10 TOKEN_BUCKET)
       \<lparr>bucketSize := Some 2, refillRate := Some (1 / 2), refillInterval := Some 1000\<rparr>"

definition fractionalRateStore :: "(string \<times> int) list \<Rightarrow> MemoryStore" where
  "fractionalRateStore es =
     snd (run_checks (TokenBucket_checkLimit fractionalRateConfig) newMemoryStore es)"

text \<open>The configuration domain of the specification, on the effective parameters.\<close>

definition validConfig :: "RateLimitConfig \<Rightarrow> bool" where
  "validConfig cfg =
     (0 < windowMs cfg \<and> 1 \<le> maxRequests cfg \<and>
      0 < js_or (bucketSize cfg) (maxRequests cfg) \<and>
      0 < js_or (refillRate cfg) 1 \<and>
      0 < js_or (refillInterval cfg)
            (real_of_int (windowMs cfg) / real_of_int (maxRequests cfg)) \<and>
      0 < js_or (queueSize cfg) (maxRequests cfg) \<and>
      0 < js_or (processingRate cfg)
            (real_of_int (maxRequests cfg) / (real_of_int (windowMs cfg) / 1000)))"

section \<open>Executions: decisions over time and invariants of the stored state\<close>

text \<open>A clock that does not advance during a check, and one that passes 999 to 1000.\<close>

definition steadyClock :: "int \<Rightarrow> clock" where
  "steadyClock t = (\<lambda>i. t)"

definition raceClock :: clock where
  "raceClock = (\<lambda>i. if i < 3 then 999 else 1000)"

definition raceExampleConfig :: RateLimitConfig where
  "raceExampleConfig = baseConfig 1000 1 FIXED_WINDOW"

definition raceExampleStore :: MemoryStore where
  "raceExampleStore =
     snd (FixedWindow_checkLimit raceExampleConfig newMemoryStore ''k'' (steadyClock 500))"






text \<open>Invariants of the token-bucket and leaking-bucket entries of the backend.\<close>

definition tokenInvariant :: "RateLimitConfig \<Rightarrow> int \<Rightarrow> MemoryStore \<Rightarrow> bool" where
  "tokenInvariant cfg T s =
     (\<forall>k sv. bucketStates s k = Some sv \<longrightarrow>
        lastRefillTime (stored sv) \<le> T \<and>
        - 1 < tokens (stored sv) \<and>
        tokens (stored sv) \<le> real_of_int (js_or (bucketSize cfg) (maxRequests cfg)) \<and>
        (js_or (refillRate cfg) 1 \<in> \<int> \<longrightarrow> tokens (stored sv) \<in> \<int> \<and> 0 \<le> tokens (stored sv)))"

definition queueInvariant :: "RateLimitConfig \<Rightarrow> MemoryStore \<Rightarrow> bool" where
  "queueInvariant cfg s =
     (\<forall>k sv. queueStates s k = Some sv \<longrightarrow>
        int (length (queue (stored sv))) \<le> js_or (queueSize cfg) (maxRequests cfg))"

section \<open>Properties of the backend\<close>

lemmas store_defs = increment_def get_counter_def live_def isExpired_def newMemoryStore_def
  addTimestamp_def getTimestamps_def removeOldTimestamps_def getBucketState_def
  setBucketState_def getQueue_def setQueue_def

text \<open>
  C9. \<open>increment(key, windowMs)\<close> on the in-process backend. When the key is absent or
  expired, the counter is set to 1 with expiry \<open>now + windowMs\<close> and 1 is returned.
  Otherwise the counter becomes its previous value plus 1, that value is returned, and
  the expiry timestamp of the key is the one it had before.
\<close>

theorem increment_contract:
  "(get_counter s key now = None \<longrightarrow>
      fst (increment s key wMs now) = 1 \<and>
      counters (snd (increment s key wMs now)) key = Some \<lparr>stored = 1, expiresAt = now + wMs\<rparr>) \<and>
   (\<forall>c. get_counter s key now = Some c \<longrightarrow>
      fst (increment s key wMs now) = c + 1 \<and>
      map_option stored (counters (snd (increment s key wMs now)) key) = Some (c + 1) \<and>
      map_option expiresAt (counters (snd (increment s key wMs now)) key)
        = map_option expiresAt (counters s key))"
  by (auto simp: increment_def get_counter_def live_def split: option.splits if_splits)

theorem increment_contract_witness:
  "get_counter newMemoryStore ''k'' 5 = None \<and>
   fst (increment newMemoryStore ''k'' 10 5) = 1 \<and>
   counters (snd (increment newMemoryStore ''k'' 10 5)) ''k''
     = Some \<lparr>stored = 1, expiresAt = 15\<rparr> \<and>
   get_counter (snd (increment newMemoryStore ''k'' 10 5)) ''k'' 7 = Some 1 \<and>
   fst (increment (snd (increment newMemoryStore ''k'' 10 5)) ''k'' 10 7) = 2 \<and>
   map_option expiresAt
     (counters (snd (increment (snd (increment newMemoryStore ''k'' 10 5)) ''k'' 10 7)) ''k'')
     = Some 15"
  using increment_contract [of newMemoryStore "''k''" 5 10]
        increment_contract [of "snd (increment newMemoryStore ''k'' 10 5)" "''k''" 7 10]
  by (simp add: store_defs)

section \<open>Properties of single decisions\<close>

text \<open>
  C4, as stated: for the counter-based algorithms, \<open>remaining\<close> equals
  \<open>max(0, limit - currentCount - (allowed ? 1 : 0))\<close> on the reported \<open>limit\<close> and
  \<open>currentCount\<close>. The first fixed-window request of a window with limit 5 is allowed
  and reports \<open>currentCount = 1\<close> and \<open>remaining = 4\<close>, where the formula gives 3.
\<close>

theorem counter_remaining_counterexample:
  "allowed (fst (FixedWindow_checkLimit (baseConfig 1000 5 FIXED_WINDOW) newMemoryStore ''k'' (steadyClock 0))) \<and>
   remaining (fst (FixedWindow_checkLimit (baseConfig 1000 5 FIXED_WINDOW) newMemoryStore ''k'' (steadyClock 0)))
     \<noteq> max 0
          (real_of_int (limit (fst (FixedWindow_checkLimit (baseConfig 1000 5 FIXED_WINDOW)
                                     newMemoryStore ''k'' (steadyClock 0))))
           - currentCount (fst (FixedWindow_checkLimit (baseConfig 1000 5 FIXED_WINDOW)
                                  newMemoryStore ''k'' (steadyClock 0)))
           - (if allowed (fst (FixedWindow_checkLimit (baseConfig 1000 5 FIXED_WINDOW)
                                 newMemoryStore ''k'' (steadyClock 0))) then 1 else 0))"
  by (simp add: FixedWindow_checkLimit_def baseConfig_def store_defs Let_def steadyClock_def)

text \<open>
  C4, amended: for every check of the fixed-window and of the sliding-window-counter
  algorithm, \<open>remaining = max(0, limit - currentCount)\<close> on the values of the same
  decision record; the reported \<open>currentCount\<close> already counts the request when it is
  allowed.
\<close>

theorem counter_remaining:
  "remaining (fst (FixedWindow_checkLimit cfg s key clk)) =
     max 0 (real_of_int (limit (fst (FixedWindow_checkLimit cfg s key clk)))
            - currentCount (fst (FixedWindow_checkLimit cfg s key clk))) \<and>
   remaining (fst (SlidingWindowCounter_checkLimit cfg s key clk)) =
     max 0 (real_of_int (limit (fst (SlidingWindowCounter_checkLimit cfg s key clk)))
            - currentCount (fst (SlidingWindowCounter_checkLimit cfg s key clk)))"
  by (simp add: FixedWindow_checkLimit_def SlidingWindowCounter_checkLimit_def Let_def max_def
           split: prod.splits)

text \<open>Evaluation of the example executions, one check at a time.\<close>

lemma run_checks_snd_Nil: "snd (run_checks chk s []) = s"
  by simp

lemma run_checks_snd_Cons:
  "snd (run_checks chk s ((k, t) # es)) = snd (run_checks chk (snd (chk s k t)) es)"
  by (simp split: prod.splits)

lemmas run_checks_snd = run_checks_snd_Nil run_checks_snd_Cons

lemma queueExampleConfig_simps:
  "queueSize queueExampleConfig = Some 2" "processingRate queueExampleConfig = Some 1"
  "windowMs queueExampleConfig = 10000" "maxRequests queueExampleConfig = 10"
  "algorithm queueExampleConfig = LEAKING_BUCKET"
  by (simp_all add: queueExampleConfig_def baseConfig_def)

lemma queueExample_step1:
  "queueStates s ''k'' = None \<Longrightarrow>
   queueStates (snd (LeakingBucket_checkLimit queueExampleConfig s ''k'' 0)) ''k''
     = Some \<lparr>stored = \<lparr>queue = [0], lastLeakTime = 0\<rparr>, expiresAt = 20000\<rparr>"
  unfolding LeakingBucket_checkLimit_def
  by (simp add: queueExampleConfig_simps js_or_def getQueue_def setQueue_def live_def)

lemma queueExample_step2:
  "queueStates s ''k'' = Some \<lparr>stored = \<lparr>queue = [0], lastLeakTime = 0\<rparr>, expiresAt = 20000\<rparr> \<Longrightarrow>
   queueStates (snd (LeakingBucket_checkLimit queueExampleConfig s ''k'' 0)) ''k''
     = Some \<lparr>stored = \<lparr>queue = [0, 0], lastLeakTime = 0\<rparr>, expiresAt = 20000\<rparr>"
  unfolding LeakingBucket_checkLimit_def
  by (simp add: queueExampleConfig_simps js_or_def getQueue_def setQueue_def live_def
        isExpired_def)

lemma queueExample_step3:
  "queueStates s ''k'' = Some \<lparr>stored = \<lparr>queue = [0, 0], lastLeakTime = 0\<rparr>, expiresAt = 20000\<rparr> \<Longrightarrow>
   \<not> allowed (fst (LeakingBucket_checkLimit queueExampleConfig s ''k'' 0)) \<and>
   resetTime (fst (LeakingBucket_checkLimit queueExampleConfig s ''k'' 0)) = 1 \<and>
   retryAfter (fst (LeakingBucket_checkLimit queueExampleConfig s ''k'' 0)) = Some 1 \<and>
   queueStates (snd (LeakingBucket_checkLimit queueExampleConfig s ''k'' 0)) ''k''
     = Some \<lparr>stored = \<lparr>queue = [0, 0], lastLeakTime = 0\<rparr>, expiresAt = 20000\<rparr>"
  unfolding LeakingBucket_checkLimit_def
  by (simp add: queueExampleConfig_simps js_or_def getQueue_def setQueue_def live_def
        isExpired_def)





subsection \<open>Retry-After\<close>

lemma js_rem_less: "0 < b \<Longrightarrow> js_rem a b < b"
proof -
  assume b: "0 < b"
  have m: "0 \<le> \<bar>a\<bar> mod \<bar>b\<bar>" "\<bar>a\<bar> mod \<bar>b\<bar> < b" using b by simp_all
  show ?thesis
  proof (cases "0 < a")
    case True then show ?thesis using m by (simp add: js_rem_def)
  next
    case False
    then have "sgn a * (\<bar>a\<bar> mod \<bar>b\<bar>) \<le> 0"
      using m(1) by (cases "a = 0") (simp_all add: sgn_if)
    then show ?thesis using b by (simp add: js_rem_def)
  qed
qed

lemma retry_token:
  assumes "validConfig cfg"
  shows "(retryAfter (fst (TokenBucket_checkLimit cfg s key now)) \<noteq> None
            \<longleftrightarrow> \<not> allowed (fst (TokenBucket_checkLimit cfg s key now))) \<and>
         (\<forall>ra. retryAfter (fst (TokenBucket_checkLimit cfg s key now)) = Some ra \<longrightarrow> 1 \<le> ra)"
proof -
  have "0 < js_or (refillInterval cfg) (real_of_int (windowMs cfg) / real_of_int (maxRequests cfg))"
    using assms by (simp add: validConfig_def)
  then have "0 < \<lceil>js_or (refillInterval cfg)
                   (real_of_int (windowMs cfg) / real_of_int (maxRequests cfg)) / 1000\<rceil>"
    by simp
  then show ?thesis
    unfolding TokenBucket_checkLimit_def by (simp add: Let_def)
qed

lemma retry_leaking:
  assumes "validConfig cfg"
  shows "(retryAfter (fst (LeakingBucket_checkLimit cfg s key now)) \<noteq> None
            \<longleftrightarrow> \<not> allowed (fst (LeakingBucket_checkLimit cfg s key now))) \<and>
         (\<forall>ra. retryAfter (fst (LeakingBucket_checkLimit cfg s key now)) = Some ra \<longrightarrow> 1 \<le> ra)"
proof -
  have q: "0 < js_or (queueSize cfg) (maxRequests cfg)"
    using assms by (simp add: validConfig_def)
  have "0 < js_or (processingRate cfg)
              (real_of_int (maxRequests cfg) / (real_of_int (windowMs cfg) / 1000))"
    using assms by (simp add: validConfig_def)
  then have "0 < \<lceil>1000 / js_or (processingRate cfg)
              (real_of_int (maxRequests cfg) / (real_of_int (windowMs cfg) / 1000)) / 1000\<rceil>"
    by simp
  then show ?thesis
    using q unfolding LeakingBucket_checkLimit_def by (auto simp: Let_def)
qed

lemma window_end_after:
  assumes "0 < windowMs cfg"
  shows "t < getWindowResetTime cfg t * 1000"
proof -
  define e where "e = t - js_rem t (windowMs cfg) + windowMs cfg"
  have "t < e" using js_rem_less [OF assms, of t] by (simp add: e_def)
  moreover have "real_of_int e / 1000 \<le> real_of_int \<lceil>real_of_int e / 1000\<rceil>"
    by (rule le_of_int_ceiling)
  then have "e \<le> \<lceil>real_of_int e / 1000\<rceil> * 1000"
    by (simp add: field_simps) linarith
  ultimately show ?thesis
    unfolding getWindowResetTime_def Let_def e_def by linarith
qed

lemma retry_fixed:
  assumes "clk 3 < getWindowResetTime cfg (clk 2) * 1000"
  shows "(retryAfter (fst (FixedWindow_checkLimit cfg s key clk)) \<noteq> None
            \<longleftrightarrow> \<not> allowed (fst (FixedWindow_checkLimit cfg s key clk))) \<and>
         (\<forall>ra. retryAfter (fst (FixedWindow_checkLimit cfg s key clk)) = Some ra \<longrightarrow> 1 \<le> ra)"
proof -
  have "0 < real_of_int (getWindowResetTime cfg (clk 2) * 1000 - clk 3) / 1000"
    using assms by simp
  then have "0 < \<lceil>real_of_int (getWindowResetTime cfg (clk 2) * 1000 - clk 3) / 1000\<rceil>"
    by (simp only: zero_less_ceiling)
  then show ?thesis
    unfolding FixedWindow_checkLimit_def by (simp add: Let_def split: prod.splits)
qed

lemma retry_log:
  assumes "validConfig cfg"
  shows "(retryAfter (fst (SlidingWindowLog_checkLimit cfg s key clk)) \<noteq> None
            \<longleftrightarrow> \<not> allowed (fst (SlidingWindowLog_checkLimit cfg s key clk))) \<and>
         (\<forall>ra. retryAfter (fst (SlidingWindowLog_checkLimit cfg s key clk)) = Some ra \<longrightarrow> 1 \<le> ra)"
proof -
  have "1 \<le> maxRequests cfg" using assms by (simp add: validConfig_def)
  then show ?thesis
    unfolding SlidingWindowLog_checkLimit_def by (auto simp: Let_def)
qed

lemma retry_counter:
  "(retryAfter (fst (SlidingWindowCounter_checkLimit cfg s key clk)) \<noteq> None
      \<longleftrightarrow> \<not> allowed (fst (SlidingWindowCounter_checkLimit cfg s key clk))) \<and>
   (\<forall>ra. retryAfter (fst (SlidingWindowCounter_checkLimit cfg s key clk)) = Some ra \<longrightarrow> 1 \<le> ra)"
  unfolding SlidingWindowCounter_checkLimit_def by (auto simp: Let_def)

text \<open>
  What holds of every check under a valid configuration: \<open>retryAfter\<close> is present exactly
  when the check is blocked, and it is at least 1 for four of the algorithms; for the
  fixed window it is at least 1 when the reading in the \<open>retryAfter\<close> block is still
  before the reported reset time, as it is when the clock does not advance in the check.
\<close>

lemma retryAfter_unless_window_crossed:
  assumes "validConfig cfg"
    and "algorithm cfg = FIXED_WINDOW \<Longrightarrow> clk 3 < getWindowResetTime cfg (clk 2) * 1000"
  shows "(retryAfter (fst (createRateLimiter cfg s key clk)) \<noteq> None
            \<longleftrightarrow> \<not> allowed (fst (createRateLimiter cfg s key clk))) \<and>
         (\<forall>ra. retryAfter (fst (createRateLimiter cfg s key clk)) = Some ra \<longrightarrow> 1 \<le> ra)"
proof (cases "algorithm cfg")
  case TOKEN_BUCKET
  then show ?thesis using retry_token [OF assms(1)] by (simp add: createRateLimiter_def)
next
  case LEAKING_BUCKET
  then show ?thesis using retry_leaking [OF assms(1)] by (simp add: createRateLimiter_def)
next
  case FIXED_WINDOW
  then show ?thesis using retry_fixed [OF assms(2)] by (simp add: createRateLimiter_def)
next
  case SLIDING_WINDOW_LOG
  then show ?thesis using retry_log [OF assms(1)] by (simp add: createRateLimiter_def)
next
  case SLIDING_WINDOW_COUNTER
  then show ?thesis using retry_counter by (simp add: createRateLimiter_def)
qed

lemma retryAfter_steady_clock:
  assumes "validConfig cfg"
  shows "(retryAfter (fst (createRateLimiter cfg s key (steadyClock t))) \<noteq> None
            \<longleftrightarrow> \<not> allowed (fst (createRateLimiter cfg s key (steadyClock t)))) \<and>
         (\<forall>ra. retryAfter (fst (createRateLimiter cfg s key (steadyClock t))) = Some ra
                \<longrightarrow> 1 \<le> ra)"
proof (rule retryAfter_unless_window_crossed [OF assms])
  have "0 < windowMs cfg" using assms by (simp add: validConfig_def)
  then show "steadyClock t 3 < getWindowResetTime cfg (steadyClock t 2) * 1000"
    using window_end_after [of cfg t] by (simp add: steadyClock_def)
qed

lemma raceExampleConfig_simps:
  "windowMs raceExampleConfig = 1000" "maxRequests raceExampleConfig = 1"
  "algorithm raceExampleConfig = FIXED_WINDOW"
  by (simp_all add: raceExampleConfig_def baseConfig_def)

lemma raceExampleStore_eq:
  "counters raceExampleStore (windowKey ''k'' 0) = Some \<lparr>stored = 1, expiresAt = 1500\<rparr>"
  unfolding raceExampleStore_def FixedWindow_checkLimit_def getWindowKey_def
  by (simp add: raceExampleConfig_simps steadyClock_def js_rem_def increment_def live_def
        newMemoryStore_def)

lemma raceExample_check:
  "counters s (windowKey ''k'' 0) = Some \<lparr>stored = 1, expiresAt = 1500\<rparr> \<Longrightarrow>
   \<not> allowed (fst (FixedWindow_checkLimit raceExampleConfig s ''k'' raceClock)) \<and>
   resetTime (fst (FixedWindow_checkLimit raceExampleConfig s ''k'' raceClock)) = 1 \<and>
   retryAfter (fst (FixedWindow_checkLimit raceExampleConfig s ''k'' raceClock)) = Some 0"
  unfolding FixedWindow_checkLimit_def getWindowKey_def getWindowResetTime_def
  by (simp add: raceExampleConfig_simps raceClock_def js_rem_def increment_def live_def
        isExpired_def)

text \<open>
  C7. The claim: for every check by any of the five algorithms (positive window,
  \<open>maxRequests \<ge> 1\<close>, positive algorithm-specific parameters), \<open>retryAfter\<close> is present
  exactly when \<open>allowed\<close> is false, and when present it is at least 1. The code of the
  fixed window, with a window of 1000 ms and limit 1, after one request at time 500: a
  second check reads the clock as 999 in \<open>getWindowKey\<close>, in the backend and in
  \<open>getWindowResetTime\<close>, and as 1000 in the \<open>retryAfter\<close> block. It is blocked, reports
  reset time 1, and \<open>retryAfter = ceil((1000 - 1000) / 1000) = 0\<close>.
\<close>

theorem fixed_window_retry_zero:
  "validConfig raceExampleConfig \<and>
   sorted [raceClock 0, raceClock 1, raceClock 2, raceClock 3] \<and>
   \<not> allowed (fst (createRateLimiter raceExampleConfig raceExampleStore ''k'' raceClock)) \<and>
   retryAfter (fst (createRateLimiter raceExampleConfig raceExampleStore ''k'' raceClock)) = Some 0"
proof -
  have v: "validConfig raceExampleConfig"
    by (simp add: validConfig_def raceExampleConfig_def baseConfig_def js_or_def)
  have c: "sorted [raceClock 0, raceClock 1, raceClock 2, raceClock 3]"
    by (simp add: raceClock_def)
  show ?thesis
    using v c raceExample_check [OF raceExampleStore_eq]
    by (simp add: createRateLimiter_def raceExampleConfig_simps)
qed

section \<open>Properties of the token bucket\<close>

lemma fractionalRateConfig_simps:
  "bucketSize fractionalRateConfig = Some 2" "refillRate fractionalRateConfig = Some (1 / 2)"
  "refillInterval fractionalRateConfig = Some 1000" "windowMs fractionalRateConfig = 10000"
  "maxRequests fractionalRateConfig = 10" "algorithm fractionalRateConfig = TOKEN_BUCKET"
  by (simp_all add: fractionalRateConfig_def baseConfig_def)

lemma fractional_step1:
  "bucketStates s ''k'' = None \<Longrightarrow>
   remaining (fst (TokenBucket_checkLimit fractionalRateConfig s ''k'' 0)) = 1 \<and>
   limit (fst (TokenBucket_checkLimit fractionalRateConfig s ''k'' 0)) = 2 \<and>
   bucketStates (snd (TokenBucket_checkLimit fractionalRateConfig s ''k'' 0)) ''k''
     = Some \<lparr>stored = \<lparr>tokens = 1, lastRefillTime = 0\<rparr>, expiresAt = 20000\<rparr>"
  unfolding TokenBucket_checkLimit_def
  by (simp add: fractionalRateConfig_simps js_or_def getBucketState_def setBucketState_def live_def)

lemma fractional_step2:
  "bucketStates s ''k'' = Some \<lparr>stored = \<lparr>tokens = 1, lastRefillTime = 0\<rparr>, expiresAt = 20000\<rparr> \<Longrightarrow>
   bucketStates (snd (TokenBucket_checkLimit fractionalRateConfig s ''k'' 0)) ''k''
     = Some \<lparr>stored = \<lparr>tokens = 0, lastRefillTime = 0\<rparr>, expiresAt = 20000\<rparr>"
  unfolding TokenBucket_checkLimit_def
  by (simp add: fractionalRateConfig_simps js_or_def getBucketState_def setBucketState_def live_def
        isExpired_def)


lemma fractional_step3:
  "bucketStates s ''k'' = Some \<lparr>stored = \<lparr>tokens = 0, lastRefillTime = 0\<rparr>, expiresAt = 20000\<rparr> \<Longrightarrow>
   allowed (fst (TokenBucket_checkLimit fractionalRateConfig s ''k'' 1000)) \<and>
   bucketStates (snd (TokenBucket_checkLimit fractionalRateConfig s ''k'' 1000)) ''k''
     = Some \<lparr>stored = \<lparr>tokens = - 1 / 2, lastRefillTime = 1000\<rparr>, expiresAt = 21000\<rparr>"
  unfolding TokenBucket_checkLimit_def
  by (simp add: fractionalRateConfig_simps js_or_def getBucketState_def setBucketState_def live_def
        isExpired_def)


lemma fractionalRateStore_2:
  "bucketStates (fractionalRateStore [(''k'', 0), (''k'', 0)]) ''k''
     = Some \<lparr>stored = \<lparr>tokens = 0, lastRefillTime = 0\<rparr>, expiresAt = 20000\<rparr>"
  by (simp add: fractionalRateStore_def run_checks_snd fractional_step1 fractional_step2
        newMemoryStore_def del: run_checks.simps)






text \<open>
  C3. The claim: after every token-bucket check the stored token count lies in
  \<open>[0, bucketSize]\<close>, and is never negative after a check that consumed a token. The
  code at \<open>bucketSize = 2\<close>, \<open>refillRate = 1/2\<close>, \<open>refillInterval = 1000\<close>, on checks at
  times 0, 0 and 1000: the third check finds \<open>1/2\<close> token, is allowed because
  \<open>1/2 > 0\<close>, consumes one token and stores \<open>-1/2\<close>.
\<close>

theorem token_negative_evaluation:
  "1 \<le> js_or (bucketSize fractionalRateConfig) (maxRequests fractionalRateConfig) \<and>
   0 < js_or (refillRate fractionalRateConfig) 1 \<and>
   0 < js_or (refillInterval fractionalRateConfig) 0 \<and>
   sorted (map snd [(''k'', 0::int), (''k'', 0), (''k'', 1000)]) \<and>
   allowed (fst (TokenBucket_checkLimit fractionalRateConfig
                   (fractionalRateStore [(''k'', 0), (''k'', 0)]) ''k'' 1000)) \<and>
   map_option (\<lambda>sv. tokens (stored sv))
     (bucketStates (fractionalRateStore [(''k'', 0), (''k'', 0), (''k'', 1000)]) ''k'')
       = Some (- 1 / 2)"
  using fractional_step3 [OF fractionalRateStore_2]
  by (simp add: fractionalRateStore_def run_checks_snd fractional_step1 fractional_step2
        fractional_step3 newMemoryStore_def fractionalRateConfig_simps js_or_def
        del: run_checks.simps)

text \<open>
  What the code guarantees on every execution with a non-decreasing clock, \<open>bucketSize \<ge> 1\<close>
  and positive refill rate and interval: the stored token count is above \<open>-1\<close> and at
  most \<open>bucketSize\<close>, and it is never negative when the refill rate is a whole number.
\<close>

lemma TokenBucket_shape:
  "\<exists>st0 sv'.
     (st0 = \<lparr>tokens = real_of_int (js_or (bucketSize cfg) (maxRequests cfg)), lastRefillTime = now\<rparr>
      \<or> (\<exists>sv. bucketStates s key = Some sv \<and> stored sv = st0)) \<and>
     bucketStates (snd (TokenBucket_checkLimit cfg s key now)) = (bucketStates s)(key \<mapsto> sv') \<and>
     lastRefillTime (stored sv') \<in> {lastRefillTime st0, now} \<and>
     tokens (stored sv') =
       (let t1 = min (real_of_int (js_or (bucketSize cfg) (maxRequests cfg)))
                   (tokens st0
                    + real_of_int \<lfloor>real_of_int (now - lastRefillTime st0)
                         / js_or (refillInterval cfg)
                             (real_of_int (windowMs cfg) / real_of_int (maxRequests cfg))\<rfloor>
                      * js_or (refillRate cfg) 1)
        in if 0 < t1 then t1 - 1 else t1)"
proof (cases "getBucketState s key now")
  case None
  show ?thesis
    apply (rule exI [of _ "\<lparr>tokens = real_of_int (js_or (bucketSize cfg) (maxRequests cfg)), lastRefillTime = now\<rparr>"])
    unfolding TokenBucket_checkLimit_def using None
    by (auto simp: Let_def setBucketState_def)
next
  case (Some st)
  then obtain sv where sv: "bucketStates s key = Some sv" "stored sv = st"
    by (auto simp: getBucketState_def live_def split: option.splits if_splits)
  show ?thesis
    apply (rule exI [of _ st])
    unfolding TokenBucket_checkLimit_def using Some sv
    by (auto simp: Let_def setBucketState_def)
qed


lemma tokenInvariant_mono: "tokenInvariant cfg T s \<Longrightarrow> T \<le> T' \<Longrightarrow> tokenInvariant cfg T' s"
  unfolding tokenInvariant_def by force

lemma tokenInvariant_step:
  assumes inv: "tokenInvariant cfg T s" and le: "T \<le> now"
    and b: "1 \<le> js_or (bucketSize cfg) (maxRequests cfg)"
    and r: "0 < js_or (refillRate cfg) 1"
    and i: "0 < js_or (refillInterval cfg)
                  (real_of_int (windowMs cfg) / real_of_int (maxRequests cfg))"
  shows "tokenInvariant cfg now (snd (TokenBucket_checkLimit cfg s key now))"
proof -
  define B where "B = js_or (bucketSize cfg) (maxRequests cfg)"
  define R where "R = js_or (refillRate cfg) 1"
  define I where "I = js_or (refillInterval cfg)
                        (real_of_int (windowMs cfg) / real_of_int (maxRequests cfg))"
  from TokenBucket_shape [of cfg now s key]
  obtain st0 sv' where
    st0: "st0 = \<lparr>tokens = real_of_int B, lastRefillTime = now\<rparr>
          \<or> (\<exists>sv. bucketStates s key = Some sv \<and> stored sv = st0)"
    and upd: "bucketStates (snd (TokenBucket_checkLimit cfg s key now)) = (bucketStates s)(key \<mapsto> sv')"
    and lr: "lastRefillTime (stored sv') \<in> {lastRefillTime st0, now}"
    and tk: "tokens (stored sv') =
               (let t1 = min (real_of_int B)
                           (tokens st0 + real_of_int \<lfloor>real_of_int (now - lastRefillTime st0) / I\<rfloor> * R)
                in if 0 < t1 then t1 - 1 else t1)"
    unfolding B_def R_def I_def by blast
  have st0_inv: "lastRefillTime st0 \<le> now \<and> - 1 < tokens st0 \<and> tokens st0 \<le> real_of_int B \<and>
                 (R \<in> \<int> \<longrightarrow> tokens st0 \<in> \<int> \<and> 0 \<le> tokens st0)"
    using st0
  proof
    assume "st0 = \<lparr>tokens = real_of_int B, lastRefillTime = now\<rparr>"
    then show ?thesis using b by (simp add: B_def)
  next
    assume "\<exists>sv. bucketStates s key = Some sv \<and> stored sv = st0"
    then show ?thesis using inv le unfolding tokenInvariant_def B_def R_def by force
  qed
  define n where "n = \<lfloor>real_of_int (now - lastRefillTime st0) / I\<rfloor>"
  have n0: "0 \<le> n"
    using st0_inv i unfolding n_def I_def by simp
  define a where "a = real_of_int n * R"
  have a0: "0 \<le> a" using n0 r unfolding a_def R_def by simp
  define t1 where "t1 = min (real_of_int B) (tokens st0 + a)"
  have tk': "tokens (stored sv') = (if 0 < t1 then t1 - 1 else t1)"
    using tk unfolding t1_def a_def n_def by (simp add: Let_def)
  have t1_up: "t1 \<le> real_of_int B" unfolding t1_def by simp
  have t1_lo: "- 1 < t1" using st0_inv a0 b unfolding t1_def B_def by (simp add: min_def)
  have t1_int: "R \<in> \<int> \<Longrightarrow> t1 \<in> \<int>"
    using st0_inv unfolding t1_def a_def min_def by auto
  have new: "lastRefillTime (stored sv') \<le> now \<and> - 1 < tokens (stored sv') \<and>
             tokens (stored sv') \<le> real_of_int B \<and>
             (R \<in> \<int> \<longrightarrow> tokens (stored sv') \<in> \<int> \<and> 0 \<le> tokens (stored sv'))"
  proof (intro conjI impI)
    show "lastRefillTime (stored sv') \<le> now" using lr st0_inv by auto
    show "- 1 < tokens (stored sv')" using tk' t1_lo by simp
    show "tokens (stored sv') \<le> real_of_int B" using tk' t1_up by simp
    show "tokens (stored sv') \<in> \<int>" if "R \<in> \<int>" using tk' t1_int [OF that] by simp
    show "0 \<le> tokens (stored sv')" if "R \<in> \<int>"
    proof (cases "0 < t1")
      case True
      from t1_int [OF that] obtain z where z: "t1 = real_of_int z" by (auto elim: Ints_cases)
      with True have "1 \<le> z" by simp
      then show ?thesis using tk' True z by simp
    next
      case False
      have "0 \<le> tokens st0" using st0_inv that by simp
      then have "0 \<le> t1" using a0 b unfolding t1_def B_def by (simp add: min_def)
      then show ?thesis using tk' False by simp
    qed
  qed
  show ?thesis
    unfolding tokenInvariant_def
  proof (intro allI impI)
    fix k sv
    assume k: "bucketStates (snd (TokenBucket_checkLimit cfg s key now)) k = Some sv"
    show "lastRefillTime (stored sv) \<le> now \<and> - 1 < tokens (stored sv) \<and>
          tokens (stored sv) \<le> real_of_int (js_or (bucketSize cfg) (maxRequests cfg)) \<and>
          (js_or (refillRate cfg) 1 \<in> \<int> \<longrightarrow> tokens (stored sv) \<in> \<int> \<and> 0 \<le> tokens (stored sv))"
    proof (cases "k = key")
      case True
      then have "sv = sv'" using k upd by simp
      then show ?thesis using new unfolding B_def R_def by simp
    next
      case False
      then have "bucketStates s k = Some sv" using k upd by simp
      then show ?thesis using inv le unfolding tokenInvariant_def by force
    qed
  qed
qed

lemma tokenInvariant_run:
  assumes b: "1 \<le> js_or (bucketSize cfg) (maxRequests cfg)"
    and r: "0 < js_or (refillRate cfg) 1"
    and i: "0 < js_or (refillInterval cfg)
                  (real_of_int (windowMs cfg) / real_of_int (maxRequests cfg))"
  shows "tokenInvariant cfg T s \<Longrightarrow> sorted (T # map snd es) \<Longrightarrow>
         \<exists>T'. tokenInvariant cfg T' (snd (run_checks (TokenBucket_checkLimit cfg) s es))"
proof (induction es arbitrary: T s)
  case Nil
  then show ?case by auto
next
  case (Cons e es)
  obtain k t where e: "e = (k, t)" by (cases e)
  have "tokenInvariant cfg t (snd (TokenBucket_checkLimit cfg s k t))"
    using tokenInvariant_step [OF Cons.prems(1) _ b r i, of t k] Cons.prems(2) e by simp
  moreover have "sorted (t # map snd es)" using Cons.prems(2) e by simp
  ultimately show ?case
    using Cons.IH e by (simp add: run_checks_snd_Cons del: run_checks.simps)
qed

lemma token_bucket_bounds:
  assumes "1 \<le> js_or (bucketSize cfg) (maxRequests cfg)"
    and "0 < js_or (refillRate cfg) 1"
    and "0 < js_or (refillInterval cfg)
                  (real_of_int (windowMs cfg) / real_of_int (maxRequests cfg))"
    and "sorted (map snd es)"
    and "bucketStates (snd (run_checks (TokenBucket_checkLimit cfg) newMemoryStore es)) k = Some sv"
  shows "- 1 < tokens (stored sv) \<and>
         tokens (stored sv) \<le> real_of_int (js_or (bucketSize cfg) (maxRequests cfg)) \<and>
         (js_or (refillRate cfg) 1 \<in> \<int> \<longrightarrow> 0 \<le> tokens (stored sv))"
proof -
  define T where "T = (case es of [] \<Rightarrow> 0 | e # _ \<Rightarrow> snd e)"
  have "sorted (T # map snd es)" using assms(4) unfolding T_def by (cases es) auto
  moreover have "tokenInvariant cfg T newMemoryStore"
    by (simp add: tokenInvariant_def newMemoryStore_def)
  ultimately obtain T' where
    "tokenInvariant cfg T' (snd (run_checks (TokenBucket_checkLimit cfg) newMemoryStore es))"
    using tokenInvariant_run [OF assms(1-3)] by blast
  then show ?thesis using assms(5) unfolding tokenInvariant_def by blast
qed


section \<open>Properties of the leaking bucket\<close>

lemma LeakingBucket_shape:
  "\<exists>q0 n sv'.
     (q0 = [] \<or> (\<exists>sv. queueStates s key = Some sv \<and> queue (stored sv) = q0)) \<and>
     queueStates (snd (LeakingBucket_checkLimit cfg s key now)) = (queueStates s)(key \<mapsto> sv') \<and>
     allowed (fst (LeakingBucket_checkLimit cfg s key now))
       = (int (length (drop n q0)) < js_or (queueSize cfg) (maxRequests cfg)) \<and>
     queue (stored sv') =
       (if int (length (drop n q0)) < js_or (queueSize cfg) (maxRequests cfg)
        then drop n q0 @ [now] else drop n q0)"
proof (cases "getQueue s key now")
  case None
  show ?thesis
    apply (rule exI [of _ "[]"])
    apply (rule exI [of _ 0])
    unfolding LeakingBucket_checkLimit_def using None
    by (auto simp: Let_def setQueue_def)
next
  case (Some st)
  then obtain sv where sv: "queueStates s key = Some sv" "stored sv = st"
    by (auto simp: getQueue_def live_def split: option.splits if_splits)
  define pRate where "pRate = js_or (processingRate cfg)
                    (real_of_int (maxRequests cfg) / (real_of_int (windowMs cfg) / 1000))"
  define leaked where "leaked = \<lfloor>(real_of_int (now - lastLeakTime st) / 1000) * pRate\<rfloor>"
  show ?thesis
    apply (rule exI [of _ "queue st"])
    apply (rule exI [of _ "if leaked > 0 then nat leaked else 0"])
    unfolding LeakingBucket_checkLimit_def leaked_def pRate_def using Some sv
    by (auto simp: Let_def setQueue_def)
qed

lemma queueInvariant_step:
  assumes "queueInvariant cfg s" and "0 \<le> js_or (queueSize cfg) (maxRequests cfg)"
  shows "queueInvariant cfg (snd (LeakingBucket_checkLimit cfg s key now))"
proof -
  from LeakingBucket_shape [of s key cfg now]
  obtain q0 n sv' where
    q0: "q0 = [] \<or> (\<exists>sv. queueStates s key = Some sv \<and> queue (stored sv) = q0)"
    and upd: "queueStates (snd (LeakingBucket_checkLimit cfg s key now)) = (queueStates s)(key \<mapsto> sv')"
    and q': "queue (stored sv') =
       (if int (length (drop n q0)) < js_or (queueSize cfg) (maxRequests cfg)
        then drop n q0 @ [now] else drop n q0)"
    by blast
  have "int (length q0) \<le> js_or (queueSize cfg) (maxRequests cfg)"
    using q0 assms unfolding queueInvariant_def by auto
  then have "int (length (queue (stored sv'))) \<le> js_or (queueSize cfg) (maxRequests cfg)"
    using q' by auto
  then show ?thesis
    using assms(1) upd unfolding queueInvariant_def by auto
qed

lemma queueInvariant_run:
  assumes "0 \<le> js_or (queueSize cfg) (maxRequests cfg)"
  shows "queueInvariant cfg s \<Longrightarrow>
         queueInvariant cfg (snd (run_checks (LeakingBucket_checkLimit cfg) s es))"
proof (induction es arbitrary: s)
  case Nil
  then show ?case by simp
next
  case (Cons e es)
  obtain k t where e: "e = (k, t)" by (cases e)
  show ?case
    using Cons.IH [OF queueInvariant_step [OF Cons.prems assms, of k t]] e
    by (simp add: run_checks_snd_Cons del: run_checks.simps)
qed

text \<open>
  C8. In every execution of leaking-bucket checks from an empty backend, with
  \<open>queueSize \<ge> 1\<close>, every stored queue has length at most \<open>queueSize\<close>. Each check stores
  the queue it found with some prefix leaked, and appends the request exactly when that
  post-leak queue is strictly shorter than \<open>queueSize\<close>, which is when it is allowed.
\<close>

theorem leaking_queue_bounded:
  assumes "1 \<le> js_or (queueSize cfg) (maxRequests cfg)"
    and "queueStates (snd (run_checks (LeakingBucket_checkLimit cfg) newMemoryStore es)) k = Some sv"
  shows "int (length (queue (stored sv))) \<le> js_or (queueSize cfg) (maxRequests cfg) \<and>
         (\<exists>q0 n sv'.
            (q0 = [] \<or> (\<exists>sv0. queueStates s key = Some sv0 \<and> queue (stored sv0) = q0)) \<and>
            queueStates (snd (LeakingBucket_checkLimit cfg s key now)) = (queueStates s)(key \<mapsto> sv') \<and>
            allowed (fst (LeakingBucket_checkLimit cfg s key now))
              = (int (length (drop n q0)) < js_or (queueSize cfg) (maxRequests cfg)) \<and>
            queue (stored sv') =
              (if int (length (drop n q0)) < js_or (queueSize cfg) (maxRequests cfg)
               then drop n q0 @ [now] else drop n q0))"
proof
  have "queueInvariant cfg newMemoryStore"
    by (simp add: queueInvariant_def newMemoryStore_def)
  then have "queueInvariant cfg (snd (run_checks (LeakingBucket_checkLimit cfg) newMemoryStore es))"
    using queueInvariant_run [of cfg newMemoryStore es] assms(1) by simp
  then show "int (length (queue (stored sv))) \<le> js_or (queueSize cfg) (maxRequests cfg)"
    using assms(2) unfolding queueInvariant_def by blast
  show "\<exists>q0 n sv'.
            (q0 = [] \<or> (\<exists>sv0. queueStates s key = Some sv0 \<and> queue (stored sv0) = q0)) \<and>
            queueStates (snd (LeakingBucket_checkLimit cfg s key now)) = (queueStates s)(key \<mapsto> sv') \<and>
            allowed (fst (LeakingBucket_checkLimit cfg s key now))
              = (int (length (drop n q0)) < js_or (queueSize cfg) (maxRequests cfg)) \<and>
            queue (stored sv') =
              (if int (length (drop n q0)) < js_or (queueSize cfg) (maxRequests cfg)
               then drop n q0 @ [now] else drop n q0)"
    using LeakingBucket_shape [of s key cfg now] by blast
qed

lemma queueExample_three:
  "queueStates (snd (run_checks (LeakingBucket_checkLimit queueExampleConfig) newMemoryStore
            [(''k'', 0), (''k'', 0), (''k'', 0)])) ''k''
     = Some \<lparr>stored = \<lparr>queue = [0, 0], lastLeakTime = 0\<rparr>, expiresAt = 20000\<rparr>"
  by (simp add: run_checks_snd queueExample_step1 queueExample_step2 queueExample_step3
        newMemoryStore_def del: run_checks.simps)

theorem leaking_queue_bounded_witness:
  "1 \<le> js_or (queueSize queueExampleConfig) (maxRequests queueExampleConfig) \<and>
   queueStates (snd (run_checks (LeakingBucket_checkLimit queueExampleConfig) newMemoryStore
            [(''k'', 0), (''k'', 0), (''k'', 0)])) ''k''
     = Some \<lparr>stored = \<lparr>queue = [0, 0], lastLeakTime = 0\<rparr>, expiresAt = 20000\<rparr> \<and>
   int (length [0::int, 0]) \<le> js_or (queueSize queueExampleConfig) (maxRequests queueExampleConfig)"
  using leaking_queue_bounded [of queueExampleConfig "[(''k'', 0), (''k'', 0), (''k'', 0)]" "''k''"
          "\<lparr>stored = \<lparr>queue = [0, 0], lastLeakTime = 0\<rparr>, expiresAt = 20000\<rparr>"]
        queueExample_three
  by (simp add: queueExampleConfig_simps js_or_def)


section \<open>Properties of the sliding window log\<close>


























section \<open>Properties of the middleware\<close>

lemma allAlgorithms_complete: "a \<in> set allAlgorithms"
  by (cases a) (simp_all add: allAlgorithms_def)

lemma statsConsistent_iff:
  "statsConsistent st \<longleftrightarrow>
     totalRequests st = allowedRequests st + blockedRequests st \<and>
     (\<forall>a. total (requestsByAlgorithm st a)
            = allowedCount (requestsByAlgorithm st a) + blockedCount (requestsByAlgorithm st a))"
  unfolding statsConsistent_def list_all_iff using allAlgorithms_complete by blast

lemma updateStats_consistent:
  "statsConsistent st \<Longrightarrow> statsConsistent (updateStats cfg n r st)"
  by (simp add: statsConsistent_iff updateStats_def Let_def bumpTotal_def bumpAllowed_def
        bumpBlocked_def)

lemma middleware_stats:
  "stats (fst (rateLimiterMiddleware chk cfg kg req now g res)) = stats g \<or>
   (\<exists>n r. stats (fst (rateLimiterMiddleware chk cfg kg req now g res))
            = updateStats cfg n r (stats g))"
  by (auto simp: rateLimiterMiddleware_def Let_def split: prod.splits sum.splits)

text \<open>
  C1. When the limiter's check throws during a middleware invocation, the middleware
  calls \<open>next\<close>, leaves the response as it was (no \<open>X-RateLimit-Limit\<close>,
  \<open>X-RateLimit-Remaining\<close>, \<open>X-RateLimit-Reset\<close> or \<open>Retry-After\<close> header, no status, no
  body), and leaves the statistics record, with every counter in it, unchanged.
\<close>

theorem fail_open:
  "fst (chk (backend g) (kg req) now) = Inl e \<Longrightarrow>
   rateLimiterMiddleware chk cfg kg req now g res = (g', res', nxt) \<Longrightarrow>
   nxt \<and> res' = res \<and> resHeaders res' = resHeaders res \<and> stats g' = stats g"
  by (auto simp: rateLimiterMiddleware_def Let_def split: prod.splits sum.splits)

theorem fail_open_witness:
  "fst (throwingLimiter (backend \<lparr>stats = initialStats, uniqueKeySet = {}, backend = newMemoryStore\<rparr>)
          (id ''10.0.0.1'') 0) = Inl BackendError \<and>
   rateLimiterMiddleware throwingLimiter (baseConfig 1000 5 FIXED_WINDOW) id ''10.0.0.1'' 0
       \<lparr>stats = initialStats, uniqueKeySet = {}, backend = newMemoryStore\<rparr> emptyResponse
     = (\<lparr>stats = initialStats, uniqueKeySet = {''10.0.0.1''}, backend = newMemoryStore\<rparr>,
        emptyResponse, True) \<and>
   resHeaders emptyResponse ''X-RateLimit-Limit'' = None \<and>
   resHeaders emptyResponse ''Retry-After'' = None"
  using fail_open [of throwingLimiter
          "\<lparr>stats = initialStats, uniqueKeySet = {}, backend = newMemoryStore\<rparr>"
          id "''10.0.0.1''" 0 BackendError "baseConfig 1000 5 FIXED_WINDOW" emptyResponse
          "\<lparr>stats = initialStats, uniqueKeySet = {''10.0.0.1''}, backend = newMemoryStore\<rparr>"
          emptyResponse True]
  by (simp add: throwingLimiter_def rateLimiterMiddleware_def emptyResponse_def)

text \<open>
  C10. The statistics record satisfies \<open>totalRequests = allowedRequests + blockedRequests\<close>
  and, for each of the five algorithm ids, \<open>total = allowed + blocked\<close>. The initial
  record satisfies it; every middleware invocation (allowed, blocked, or the error path)
  preserves it; \<open>resetStats\<close> re-establishes it.
\<close>

theorem stats_accounting:
  "statsConsistent initialStats \<and>
   (statsConsistent (stats g) \<longrightarrow>
      statsConsistent (stats (fst (rateLimiterMiddleware chk cfg kg req now g res)))) \<and>
   statsConsistent (stats (resetStats g))"
proof (intro conjI impI)
  show "statsConsistent initialStats"
    by (simp add: statsConsistent_iff initialStats_def zeroAlgorithmStats_def)
  show "statsConsistent (stats (resetStats g))"
    by (simp add: statsConsistent_iff resetStats_def zeroAlgorithmStats_def)
  assume "statsConsistent (stats g)"
  then show "statsConsistent (stats (fst (rateLimiterMiddleware chk cfg kg req now g res)))"
    using middleware_stats [of chk cfg kg req now g res] updateStats_consistent by auto
qed

theorem stats_accounting_witness:
  "statsConsistent (stats \<lparr>stats = initialStats, uniqueKeySet = {}, backend = newMemoryStore\<rparr>) \<and>
   statsConsistent
     (stats (fst (rateLimiterMiddleware (memoryLimiter (baseConfig 1000 5 FIXED_WINDOW))
                    (baseConfig 1000 5 FIXED_WINDOW) id ''10.0.0.1'' (steadyClock 0)
                    \<lparr>stats = initialStats, uniqueKeySet = {}, backend = newMemoryStore\<rparr>
                    emptyResponse))) \<and>
   totalRequests
     (stats (fst (rateLimiterMiddleware (memoryLimiter (baseConfig 1000 5 FIXED_WINDOW))
                    (baseConfig 1000 5 FIXED_WINDOW) id ''10.0.0.1'' (steadyClock 0)
                    \<lparr>stats = initialStats, uniqueKeySet = {}, backend = newMemoryStore\<rparr>
                    emptyResponse))) = 1"
  using stats_accounting [of "\<lparr>stats = initialStats, uniqueKeySet = {}, backend = newMemoryStore\<rparr>"
          "memoryLimiter (baseConfig 1000 5 FIXED_WINDOW)" "baseConfig 1000 5 FIXED_WINDOW"
          id "''10.0.0.1''" "steadyClock 0" emptyResponse]
  by (simp add: rateLimiterMiddleware_def memoryLimiter_def createRateLimiter_def
        FixedWindow_checkLimit_def baseConfig_def store_defs Let_def updateStats_def
        initialStats_def steadyClock_def split: prod.splits)

end
